theory Spec2Isabelle
  imports Complex_Main
begin

section \<open>Python values and strings\<close>

text \<open>
  Strings are lists of characters with code points below 256; within that range the
  decimal digits of Python's \<^verbatim>\<open>\d\<close> are exactly \<^verbatim>\<open>0\<close> to \<^verbatim>\<open>9\<close>.
  A database column read through \<^verbatim>\<open>dict(row)\<close> is \<^verbatim>\<open>None\<close>, an integer or a string.
\<close>

datatype pyval = PNone | PInt int | PStr string

datatype error =
    VolumeNotFound
  | IssueNotFound
  | InvalidSettingValue string
  | AttributeError
  | TypeError
  | ValueError
  | IndexError
  | KeyError string
  | NotModelled
  | MoveFailure

definition sep :: char where
  "sep = CHR ''/''"

definition extsep :: char where
  "extsep = CHR ''.''"

definition newline :: char where
  "newline = CHR 0x0A"

definition backslash :: char where
  "backslash = CHR 0x5C"

definition is_digit :: "char \<Rightarrow> bool" where
  "is_digit c = (c \<in> set ''0123456789'')"

definition digit_char :: "nat \<Rightarrow> char" where
  "digit_char d = ''0123456789'' ! d"

text \<open>\<^verbatim>\<open>str(n)\<close> for a non-negative integer: its decimal digits, most significant first.\<close>

fun str_nat :: "nat \<Rightarrow> string" where
  "str_nat n = (if n < 10 then [digit_char n] else str_nat (n div 10) @ [digit_char (n mod 10)])"

declare str_nat.simps [simp del]

definition str_int :: "int \<Rightarrow> string" where
  "str_int i = (if i < 0 then CHR ''-'' # str_nat (nat (- i)) else str_nat (nat i))"

text \<open>\<^verbatim>\<open>str(v)\<close>, as an f-string or \<^verbatim>\<open>str.format\<close> with an empty format spec renders it.\<close>

fun py_str :: "pyval \<Rightarrow> string" where
  "py_str PNone = ''None''"
| "py_str (PInt i) = str_int i"
| "py_str (PStr s) = s"

text \<open>Truthiness, and \<^verbatim>\<open>x or 'Unknown'\<close>.\<close>

fun truthy :: "pyval \<Rightarrow> bool" where
  "truthy PNone = False"
| "truthy (PInt i) = (i \<noteq> 0)"
| "truthy (PStr s) = (s \<noteq> [])"

definition or_unknown :: "pyval \<Rightarrow> pyval" where
  "or_unknown v = (if truthy v then v else PStr ''Unknown'')"

text \<open>\<^verbatim>\<open>s.startswith(prefix)\<close> on two strings.\<close>

definition startswith :: "string \<Rightarrow> string \<Rightarrow> bool" where
  "startswith s pre = (take (length pre) s = pre)"

definition endswith :: "string \<Rightarrow> string \<Rightarrow> bool" where
  "endswith s suf = (length suf \<le> length s \<and> drop (length s - length suf) s = suf)"

text \<open>\<^verbatim>\<open>s.rfind(c)\<close> for a one-character needle: the last index of \<open>c\<close>, or \<open>-1\<close>.\<close>

definition rfind :: "string \<Rightarrow> char \<Rightarrow> int" where
  "rfind s c =
     (if c \<in> set s then int (length s) - 1 - int (length (takeWhile (\<lambda>x. x \<noteq> c) (rev s)))
      else - 1)"

text \<open>\<^verbatim>\<open>s.rstrip(c)\<close> for a one-character set.\<close>

definition rstrip :: "string \<Rightarrow> char \<Rightarrow> string" where
  "rstrip s c = rev (dropWhile (\<lambda>x. x = c) (rev s))"

section \<open>os.path, the POSIX flavour\<close>

definition basename :: "string \<Rightarrow> string" where
  "basename p = (let i = rfind p sep + 1 in drop (nat i) p)"

definition dirname :: "string \<Rightarrow> string" where
  "dirname p =
     (let i = rfind p sep + 1;
          head = take (nat i) p
      in if head \<noteq> [] \<and> head \<noteq> replicate (length head) sep then rstrip head sep else head)"

text \<open>\<^verbatim>\<open>join(a, b)\<close> with one component after the first.\<close>

definition join :: "string \<Rightarrow> string \<Rightarrow> string" where
  "join a b =
     (if startswith b [sep] then b
      else if a = [] \<or> endswith a [sep] then a @ b
      else a @ [sep] @ b)"

text \<open>
  \<^verbatim>\<open>splitext(p)\<close>: the extension starts at the last dot, if that dot comes after the last
  separator and some character between the two is not a dot.
\<close>

definition splitext :: "string \<Rightarrow> string \<times> string" where
  "splitext p =
     (let sepIndex = rfind p sep;
          dotIndex = rfind p extsep
      in if dotIndex > sepIndex
            \<and> list_ex (\<lambda>c. c \<noteq> extsep)
                 (take (nat dotIndex - nat (sepIndex + 1)) (drop (nat (sepIndex + 1)) p))
         then (take (nat dotIndex) p, drop (nat dotIndex) p)
         else (p, []))"

section \<open>The regular expressions of the collision resolver\<close>

text \<open>
  The fragment of \<^verbatim>\<open>re\<close> that \<^verbatim>\<open>same_name_indexing\<close> builds: a literal (what
  \<^verbatim>\<open>escape\<close> makes of a string), \<^verbatim>\<open>\d+\<close>, sequence, an optional group and \<^verbatim>\<open>$\<close>,
  which holds at the end of the string and just before a newline that ends it.
  \<open>rx_rests r s\<close> lists what can be left of \<open>s\<close> once \<open>r\<close> has matched a prefix of it;
  \<^verbatim>\<open>match\<close> succeeds when something can.
\<close>

datatype regex = Lit string | Digits1 | Seq regex regex | Opt regex | Eos

fun digit_rests :: "string \<Rightarrow> string list" where
  "digit_rests [] = []"
| "digit_rests (c # cs) = (if is_digit c then digit_rests cs @ [cs] else [])"

fun rx_rests :: "regex \<Rightarrow> string \<Rightarrow> string list" where
  "rx_rests (Lit l) s = (if startswith s l then [drop (length l) s] else [])"
| "rx_rests Digits1 s = digit_rests s"
| "rx_rests (Seq a b) s = concat (map (rx_rests b) (rx_rests a s))"
| "rx_rests (Opt a) s = rx_rests a s @ [s]"
| "rx_rests Eos s = (if s = [] \<or> s = [newline] then [s] else [])"

definition re_match :: "regex \<Rightarrow> string \<Rightarrow> bool" where
  "re_match r s = (rx_rests r s \<noteq> [])"

text \<open>\<^verbatim>\<open>escape(suggested_name) + r'( \(\d+\))?$'\<close>; the non-capturing group of the
  second filter matches the same strings.\<close>

definition same_name_pattern :: "string \<Rightarrow> regex" where
  "same_name_pattern suggested_name =
     Seq (Lit suggested_name) (Seq (Opt (Seq (Lit '' ('') (Seq Digits1 (Lit '')'')))) Eos)"

section \<open>The file system as the code reads it\<close>

text \<open>
  The three questions \<^verbatim>\<open>naming.py\<close> asks of the disk, \<^verbatim>\<open>isfile\<close>, \<^verbatim>\<open>isdir\<close> and
  \<^verbatim>\<open>listdir\<close>, for any state of the disk; and an entry of a plan.
\<close>

record filesystem =
  isfile :: "string \<Rightarrow> bool"
  isdir :: "string \<Rightarrow> bool"
  listdir :: "string \<Rightarrow> string list"

record rename_entry =
  before :: string
  after :: string

section \<open>Renaming: the collision resolver\<close>

text \<open>The f-string \<^verbatim>\<open>f"{suggested_name} ({i})"\<close>.\<close>

definition indexed_name :: "string \<Rightarrow> nat \<Rightarrow> string" where
  "indexed_name suggested_name i = suggested_name @ '' ('' @ str_nat i @ '')''"

text \<open>The tuple \<^verbatim>\<open>same_names\<close>: the planned part, then the folder part.\<close>

definition same_names :: "filesystem \<Rightarrow> string \<Rightarrow> string \<Rightarrow> string \<Rightarrow> rename_entry list \<Rightarrow> string list" where
  "same_names fs suggested_name current_name folder planned_names =
     filter (\<lambda>r. re_match (same_name_pattern suggested_name) r)
       (map (\<lambda>r. fst (splitext (basename (after r)))) planned_names)
     @ (if isdir fs folder then
          (let basename_file = fst (splitext (basename current_name))
           in filter (\<lambda>f. f \<noteq> basename_file \<and> re_match (same_name_pattern suggested_name) f)
                (map (\<lambda>f. fst (splitext f)) (listdir fs folder)))
        else [])"

text \<open>
  The \<^verbatim>\<open>while True\<close> loop. It stops: an index \<open>i\<close> whose name is taken is below ten to
  the power of the taken names' total length.
\<close>

lemma str_nat_bound: "n < 10 ^ length (str_nat n)"
proof (induction n rule: str_nat.induct)
  case (1 n)
  show ?case
  proof (cases "n < 10")
    case True
    then show ?thesis by (subst str_nat.simps) simp
  next
    case False
    then have "n div 10 < 10 ^ length (str_nat (n div 10))" using 1 by simp
    then have "n < 10 * 10 ^ length (str_nat (n div 10))" by linarith
    then show ?thesis using False by (subst str_nat.simps) simp
  qed
qed

lemma indexed_name_bound:
  assumes "indexed_name s i \<in> set names"
  shows "i < 10 ^ sum_list (map length names)"
proof -
  have "length (indexed_name s i) \<le> sum_list (map length names)"
    using assms by (simp add: member_le_sum_list)
  then have "length (str_nat i) \<le> sum_list (map length names)"
    by (simp add: indexed_name_def)
  then have "(10::nat) ^ length (str_nat i) \<le> 10 ^ sum_list (map length names)"
    by (simp add: power_increasing)
  with str_nat_bound [of i] show ?thesis by linarith
qed

function index_loop :: "string \<Rightarrow> string list \<Rightarrow> nat \<Rightarrow> string" where
  "index_loop suggested_name names i =
     (if i = 0 \<and> suggested_name \<notin> set names then suggested_name
      else if i \<noteq> 0 \<and> indexed_name suggested_name i \<notin> set names
        then suggested_name @ '' ('' @ str_nat i @ '')''
      else index_loop suggested_name names (i + 1))"
  by pat_completeness auto
termination
proof (relation "measure (\<lambda>(s, names, i). 10 ^ sum_list (map length names) + 1 - i)")
  show "wf (measure (\<lambda>(s, names, i). 10 ^ sum_list (map length names) + 1 - i))" by simp
next
  fix suggested_name :: string and names :: "string list" and i :: nat
  assume b: "\<not> (i \<noteq> 0 \<and> indexed_name suggested_name i \<notin> set names)"
  have "i < 10 ^ sum_list (map length names)"
  proof (cases "i = 0")
    case True then show ?thesis by simp
  next
    case False
    with b have "indexed_name suggested_name i \<in> set names" by simp
    then show ?thesis by (rule indexed_name_bound)
  qed
  then show "((suggested_name, names, i + 1), (suggested_name, names, i))
        \<in> measure (\<lambda>(s, names, i). 10 ^ sum_list (map length names) + 1 - i)"
    by simp
qed

declare index_loop.simps [simp del]

definition same_name_indexing :: "filesystem \<Rightarrow> string \<Rightarrow> string \<Rightarrow> string \<Rightarrow> rename_entry list \<Rightarrow> string" where
  "same_name_indexing fs suggested_name current_name folder planned_names =
     (let names = same_names fs suggested_name current_name folder planned_names
      in if names \<noteq> [] then index_loop suggested_name names 0 else suggested_name)"

section \<open>The format-string parser of \<^verbatim>\<open>string.Formatter\<close> and \<^verbatim>\<open>str.format\<close>\<close>

text \<open>
  Both walk the template with the same iterator. One step reads literal text up to the
  next brace; a doubled brace is an escape and ends the step with that brace in the
  literal; a single \<^verbatim>\<open>{\<close> opens a field: its name (up to \<^verbatim>\<open>}\<close>, \<^verbatim>\<open>!\<close> or \<^verbatim>\<open>:\<close>,
  with anything between \<^verbatim>\<open>[\<close> and \<^verbatim>\<open>]\<close> skipped over), an optional conversion and
  an optional format spec with balanced braces. Every malformed template is a
  \<^verbatim>\<open>ValueError\<close>.
\<close>

type_synonym field = "string \<times> string \<times> char option"
type_synonym piece = "string \<times> field option"

fun scan_field_name :: "bool \<Rightarrow> string \<Rightarrow> string \<Rightarrow> error + (string \<times> char \<times> string)" where
  "scan_field_name in_brackets acc [] = Inl ValueError"
| "scan_field_name True acc (c # cs) = scan_field_name (c \<noteq> CHR '']'') (acc @ [c]) cs"
| "scan_field_name False acc (c # cs) =
     (if c = CHR ''{'' then Inl ValueError
      else if c = CHR ''['' then scan_field_name True (acc @ [c]) cs
      else if c = CHR ''}'' \<or> c = CHR '':'' \<or> c = CHR ''!'' then Inr (acc, c, cs)
      else scan_field_name False (acc @ [c]) cs)"

fun scan_format_spec :: "nat \<Rightarrow> string \<Rightarrow> string \<Rightarrow> error + (string \<times> string)" where
  "scan_format_spec depth acc [] = Inl ValueError"
| "scan_format_spec depth acc (c # cs) =
     (if c = CHR ''{'' then scan_format_spec (Suc depth) (acc @ [c]) cs
      else if c = CHR ''}'' then
        (case depth of 0 \<Rightarrow> Inr (acc, cs) | Suc d \<Rightarrow> scan_format_spec d (acc @ [c]) cs)
      else scan_format_spec depth (acc @ [c]) cs)"

definition parse_field :: "string \<Rightarrow> error + (field \<times> string)" where
  "parse_field s =
     (case scan_field_name False [] s of
        Inl e \<Rightarrow> Inl e
      | Inr (field_name, c, rest) \<Rightarrow>
          if c = CHR ''}'' then Inr ((field_name, [], None), rest)
          else if c = CHR ''!'' then
            (case rest of
               [] \<Rightarrow> Inl ValueError
             | conversion # rest1 \<Rightarrow>
                 (case rest1 of
                    [] \<Rightarrow> Inl ValueError
                  | c1 # rest2 \<Rightarrow>
                      if c1 = CHR ''}'' then Inr ((field_name, [], Some conversion), rest2)
                      else if c1 \<noteq> CHR '':'' then Inl ValueError
                      else (case scan_format_spec 0 [] rest2 of
                              Inl e \<Rightarrow> Inl e
                            | Inr (format_spec, rest3) \<Rightarrow>
                                Inr ((field_name, format_spec, Some conversion), rest3))))
          else (case scan_format_spec 0 [] rest of
                  Inl e \<Rightarrow> Inl e
                | Inr (format_spec, rest1) \<Rightarrow> Inr ((field_name, format_spec, None), rest1)))"

definition is_brace :: "char \<Rightarrow> bool" where
  "is_brace c = (c = CHR ''{'' \<or> c = CHR ''}'')"

text \<open>One step of the iterator on a non-empty rest of the template.\<close>

definition markup_next :: "string \<Rightarrow> error + (piece \<times> string)" where
  "markup_next s =
     (let literal = takeWhile (\<lambda>c. \<not> is_brace c) s
      in case dropWhile (\<lambda>c. \<not> is_brace c) s of
           [] \<Rightarrow> Inr ((literal, None), [])
         | c # rest \<Rightarrow>
             (case rest of
                [] \<Rightarrow> Inl ValueError
              | c1 # rest1 \<Rightarrow>
                  if c1 = c then Inr ((literal @ [c], None), rest1)
                  else if c = CHR ''}'' then Inl ValueError
                  else (case parse_field rest of
                          Inl e \<Rightarrow> Inl e
                        | Inr (fld, rest2) \<Rightarrow> Inr ((literal, Some fld), rest2))))"

lemma scan_field_name_shorter:
  "scan_field_name b acc s = Inr (nm, c, rest) \<Longrightarrow> length rest < length s"
  by (induction b acc s rule: scan_field_name.induct) (auto split: if_splits)

lemma scan_format_spec_shorter:
  "scan_format_spec d acc s = Inr (spec, rest) \<Longrightarrow> length rest < length s"
  by (induction d acc s rule: scan_format_spec.induct) (auto split: if_splits nat.splits)

lemma parse_field_shorter:
  "parse_field s = Inr (fld, rest) \<Longrightarrow> length rest < length s"
  unfolding parse_field_def
  by (auto split: sum.splits prod.splits if_splits list.splits
      dest!: scan_field_name_shorter scan_format_spec_shorter)

lemma markup_next_shorter:
  assumes "markup_next s = Inr (p, rest)" and "s \<noteq> []"
  shows "length rest < length s"
proof -
  have le: "length (dropWhile (\<lambda>c. \<not> is_brace c) s) \<le> length s"
    by (rule length_dropWhile_le)
  show ?thesis
    using assms le unfolding markup_next_def Let_def
    by (auto split: list.splits if_splits sum.splits prod.splits dest!: parse_field_shorter)
qed

text \<open>
  The whole walk: the pieces read before the first malformed place, and the error
  there if there is one. \<^verbatim>\<open>str.format\<close> renders piece by piece, so an error of a field
  comes before the error of a malformed place after it.
\<close>

function markup_pieces :: "string \<Rightarrow> piece list \<times> error option" where
  "markup_pieces s =
     (if s = [] then ([], None)
      else (case markup_next s of
              Inl e \<Rightarrow> ([], Some e)
            | Inr (p, rest) \<Rightarrow> (case markup_pieces rest of (ps, e) \<Rightarrow> (p # ps, e))))"
  by pat_completeness auto
termination
  by (relation "measure length") (auto dest: markup_next_shorter)

declare markup_pieces.simps [simp del]

text \<open>\<^verbatim>\<open>list(Formatter().parse(format))\<close>.\<close>

definition formatter_parse :: "string \<Rightarrow> error + piece list" where
  "formatter_parse format =
     (case markup_pieces format of (ps, Some e) \<Rightarrow> Inl e | (ps, None) \<Rightarrow> Inr ps)"

text \<open>
  One replacement field of \<^verbatim>\<open>format.format(**kwargs)\<close>. Modelled: a field whose name is
  a keyword (no attribute or index part, not empty, not a number), with no conversion
  and an empty format spec; it is the keyword's value as \<^verbatim>\<open>str\<close> gives it, or a
  \<^verbatim>\<open>KeyError\<close>. Every other field is \<open>NotModelled\<close>.
\<close>

definition render_field :: "field \<Rightarrow> (string \<rightharpoonup> pyval) \<Rightarrow> error + string" where
  "render_field fld kwargs =
     (case fld of (field_name, format_spec, conversion) \<Rightarrow>
        if field_name = [] \<or> list_all is_digit field_name
           \<or> list_ex (\<lambda>c. c = CHR ''.'' \<or> c = CHR ''['') field_name
           \<or> format_spec \<noteq> [] \<or> conversion \<noteq> None
        then Inl NotModelled
        else (case kwargs field_name of
                None \<Rightarrow> Inl (KeyError field_name)
              | Some v \<Rightarrow> Inr (py_str v)))"

fun render_pieces :: "piece list \<Rightarrow> error option \<Rightarrow> (string \<rightharpoonup> pyval) \<Rightarrow> error + string" where
  "render_pieces [] None kwargs = Inr []"
| "render_pieces [] (Some e) kwargs = Inl e"
| "render_pieces ((literal, None) # ps) e kwargs =
     (case render_pieces ps e kwargs of Inl x \<Rightarrow> Inl x | Inr r \<Rightarrow> Inr (literal @ r))"
| "render_pieces ((literal, Some fld) # ps) e kwargs =
     (case render_field fld kwargs of
        Inl x \<Rightarrow> Inl x
      | Inr v \<Rightarrow> (case render_pieces ps e kwargs of Inl x \<Rightarrow> Inl x | Inr r \<Rightarrow> Inr (literal @ v @ r)))"

definition py_format :: "string \<Rightarrow> (string \<rightharpoonup> pyval) \<Rightarrow> error + string" where
  "py_format format kwargs =
     (case markup_pieces format of (ps, e) \<Rightarrow> render_pieces ps e kwargs)"

section \<open>The database, the settings and the world\<close>

text \<open>
  The tables as the queries of \<^verbatim>\<open>naming.py\<close> read them, each a list of rows in table
  order; \<^verbatim>\<open>fetchone\<close> and \<^verbatim>\<open>LIMIT 1\<close> take the first row that matches. The calculated
  issue number is only ever compared, so a rational stands for the float.
\<close>

record volume =
  vol_id :: int
  vol_comicvine_id :: pyval
  vol_title :: pyval
  vol_year :: pyval
  vol_publisher :: pyval
  vol_volume_number :: pyval
  vol_root_folder :: int
  vol_folder :: pyval

record issue =
  iss_id :: int
  iss_volume_id :: int
  iss_comicvine_id :: pyval
  iss_issue_number :: pyval
  iss_calculated_issue_number :: rat
  iss_title :: pyval
  iss_date :: pyval

record file_row =
  file_id :: int
  filepath :: string

record issue_file =
  link_file_id :: int
  link_issue_id :: int

record root_folder =
  rf_id :: int
  rf_folder :: string

record database =
  volumes :: "volume list"
  issues :: "issue list"
  files :: "file_row list"
  issues_files :: "issue_file list"
  root_folders :: "root_folder list"

record settings =
  volume_folder_naming :: string
  file_naming :: string
  file_naming_tpb :: string

record world =
  w_db :: database
  w_settings :: settings
  w_fs :: filesystem

section \<open>Name generation\<close>

definition formatting_keys :: "string list" where
  "formatting_keys =
     [''series_name'', ''clean_series_name'', ''volume_number'', ''comicvine_id'', ''year'',
      ''publisher'']"

definition issue_formatting_keys :: "string list" where
  "issue_formatting_keys =
     formatting_keys @
     [''issue_comicvine_id'', ''issue_number'', ''issue_title'', ''issue_release_date'']"

text \<open>\<^verbatim>\<open>if issue_id:\<close> and \<^verbatim>\<open>not issue_id\<close>: \<^verbatim>\<open>None\<close> and \<open>0\<close> are both false.\<close>

fun id_truthy :: "int option \<Rightarrow> bool" where
  "id_truthy None = False"
| "id_truthy (Some i) = (i \<noteq> 0)"

text \<open>The \<^verbatim>\<open>clean_title\<close> of lines 56 to 61; \<^verbatim>\<open>startswith\<close> is a method of strings only.\<close>

definition clean_title :: "pyval \<Rightarrow> error + pyval" where
  "clean_title title =
     (case title of
        PStr t \<Rightarrow>
          if startswith t ''The '' then Inr (PStr (t @ '', The''))
          else if startswith t ''A '' then Inr (PStr (t @ '', A''))
          else Inr (or_unknown (PStr t))
      | _ \<Rightarrow> Inl AttributeError)"

text \<open>
  \<^verbatim>\<open>_get_formatting_data\<close>, lines 38 to 94: the volume row or \<^verbatim>\<open>VolumeNotFound\<close>, the
  six keys of the volume and, when \<^verbatim>\<open>issue_id\<close> is true, the issue row or
  \<^verbatim>\<open>IssueNotFound\<close> and the four keys of the issue.
\<close>

definition get_formatting_data :: "database \<Rightarrow> int \<Rightarrow> int option \<Rightarrow> error + (string \<rightharpoonup> pyval)" where
  "get_formatting_data d volume_id issue_id =
     (case find (\<lambda>v. vol_id v = volume_id) (volumes d) of
        None \<Rightarrow> Inl VolumeNotFound
      | Some volume_data \<Rightarrow>
          (case clean_title (vol_title volume_data) of
             Inl e \<Rightarrow> Inl e
           | Inr clean \<Rightarrow>
               (let formatting_data =
                      [''series_name'' \<mapsto> or_unknown (vol_title volume_data),
                       ''clean_series_name'' \<mapsto> clean,
                       ''volume_number'' \<mapsto> or_unknown (vol_volume_number volume_data),
                       ''comicvine_id'' \<mapsto> or_unknown (vol_comicvine_id volume_data),
                       ''year'' \<mapsto> or_unknown (vol_year volume_data),
                       ''publisher'' \<mapsto> or_unknown (vol_publisher volume_data)]
                in if id_truthy issue_id then
                     (case find (\<lambda>i. Some (iss_id i) = issue_id) (issues d) of
                        None \<Rightarrow> Inl IssueNotFound
                      | Some issue_data \<Rightarrow>
                          Inr (formatting_data
                                (''issue_comicvine_id'' \<mapsto> or_unknown (iss_comicvine_id issue_data),
                                 ''issue_number'' \<mapsto> or_unknown (iss_issue_number issue_data),
                                 ''issue_title'' \<mapsto> or_unknown (iss_title issue_data),
                                 ''issue_release_date'' \<mapsto> or_unknown (iss_date issue_data))))
                   else Inr formatting_data)))"

definition generate_volume_folder_name :: "world \<Rightarrow> int \<Rightarrow> error + string" where
  "generate_volume_folder_name w volume_id =
     (case get_formatting_data (w_db w) volume_id None of
        Inl e \<Rightarrow> Inl e
      | Inr formatting_data \<Rightarrow> py_format (volume_folder_naming (w_settings w)) formatting_data)"

definition generate_tpb_name :: "world \<Rightarrow> int \<Rightarrow> error + string" where
  "generate_tpb_name w volume_id =
     (case get_formatting_data (w_db w) volume_id None of
        Inl e \<Rightarrow> Inl e
      | Inr formatting_data \<Rightarrow> py_format (file_naming_tpb (w_settings w)) formatting_data)"

text \<open>
  The formatting data of \<^verbatim>\<open>generate_issue_range_name\<close>, lines 111 to 134:
  \<^verbatim>\<open>fetchone()[0]\<close> on no row is a \<^verbatim>\<open>TypeError\<close>, and unpacking anything but two rows
  into \<^verbatim>\<open>issue_number_start, issue_number_end\<close> is a \<^verbatim>\<open>ValueError\<close>.
\<close>

definition issue_range_formatting_data :: "database \<Rightarrow> int \<Rightarrow> rat \<Rightarrow> rat \<Rightarrow> error + (string \<rightharpoonup> pyval)" where
  "issue_range_formatting_data d volume_id calculated_issue_number_start calculated_issue_number_end =
     (case find (\<lambda>i. iss_volume_id i = volume_id
                     \<and> iss_calculated_issue_number i = calculated_issue_number_start) (issues d) of
        None \<Rightarrow> Inl TypeError
      | Some row \<Rightarrow>
          (case get_formatting_data d volume_id (Some (iss_id row)) of
             Inl e \<Rightarrow> Inl e
           | Inr formatting_data \<Rightarrow>
               (case map iss_issue_number
                       (sort_key iss_calculated_issue_number
                          (filter (\<lambda>i. iss_volume_id i = volume_id
                                        \<and> (iss_calculated_issue_number i = calculated_issue_number_start
                                           \<or> iss_calculated_issue_number i = calculated_issue_number_end))
                             (issues d))) of
                  [issue_number_start, issue_number_end] \<Rightarrow>
                    Inr (formatting_data
                          (''issue_number'' \<mapsto>
                             PStr (py_str issue_number_start @ ''-'' @ py_str issue_number_end)))
                | _ \<Rightarrow> Inl ValueError)))"

definition generate_issue_range_name :: "world \<Rightarrow> int \<Rightarrow> rat \<Rightarrow> rat \<Rightarrow> error + string" where
  "generate_issue_range_name w volume_id calculated_issue_number_start calculated_issue_number_end =
     (case issue_range_formatting_data (w_db w) volume_id
             calculated_issue_number_start calculated_issue_number_end of
        Inl e \<Rightarrow> Inl e
      | Inr formatting_data \<Rightarrow> py_format (file_naming (w_settings w)) formatting_data)"

definition generate_issue_name :: "world \<Rightarrow> int \<Rightarrow> int \<Rightarrow> error + string" where
  "generate_issue_name w volume_id issue_id =
     (case get_formatting_data (w_db w) volume_id (Some issue_id) of
        Inl e \<Rightarrow> Inl e
      | Inr formatting_data \<Rightarrow> py_format (file_naming (w_settings w)) formatting_data)"

section \<open>Checking formats\<close>

text \<open>\<^verbatim>\<open>needle in s\<close> on strings.\<close>

fun str_in :: "string \<Rightarrow> string \<Rightarrow> bool" where
  "str_in needle [] = (needle = [])"
| "str_in needle (c # cs) = (startswith (c # cs) needle \<or> str_in needle cs)"

text \<open>The first key of the \<^verbatim>\<open>for format_key in keys\<close> loop that is not a naming key.\<close>

definition check_format :: "string \<Rightarrow> string \<Rightarrow> error + unit" where
  "check_format format type =
     (case formatter_parse format of
        Inl e \<Rightarrow> Inl e
      | Inr ps \<Rightarrow>
          (let keys = concat (map (\<lambda>p. case snd p of None \<Rightarrow> [] | Some (fn, spec, conv) \<Rightarrow> [fn]) ps);
               check_keys = (\<lambda>naming_keys.
                  case find (\<lambda>format_key. format_key \<notin> set naming_keys) keys of
                    Some format_key \<Rightarrow> Inl (InvalidSettingValue (''{'' @ format_key @ ''}''))
                  | None \<Rightarrow> Inr ())
           in if type \<in> set [''file_naming'', ''file_naming_tpb''] then
                (if str_in [sep] format \<or> str_in [backslash, backslash] format
                 then Inl (InvalidSettingValue ''Path seperator found'')
                 else check_keys (if type = ''file_naming'' then issue_formatting_keys
                                  else formatting_keys))
              else check_keys formatting_keys))"

section \<open>Renaming: the planner\<close>

text \<open>
  The files of the volume: the three-table join with \<^verbatim>\<open>SELECT DISTINCT\<close>; and the
  files of one issue: the two-table join, one row per link. SQLite drives both joins
  from the link table \<^verbatim>\<open>issues_files\<close> and looks the file and the issue of each link up
  by their ids, so the rows come in the order of the link rows; \<^verbatim>\<open>DISTINCT\<close> keeps the
  first of equal rows.
\<close>

definition distinct_rows :: "'a list \<Rightarrow> 'a list" where
  "distinct_rows rows = rev (remdups (rev rows))"

definition volume_file_infos :: "database \<Rightarrow> int \<Rightarrow> file_row list" where
  "volume_file_infos d volume_id =
     distinct_rows
       (concat (map (\<lambda>l.
          concat (map (\<lambda>i.
            concat (map (\<lambda>f.
              if iss_id i = link_issue_id l \<and> link_file_id l = file_id f
                 \<and> iss_volume_id i = volume_id
              then [f] else [])
            (files d)))
          (issues d)))
        (issues_files d)))"

definition issue_file_infos :: "database \<Rightarrow> int \<Rightarrow> file_row list" where
  "issue_file_infos d issue_id =
     concat (map (\<lambda>l.
       concat (map (\<lambda>f.
         if link_file_id l = file_id f \<and> link_issue_id l = issue_id then [f] else [])
       (files d)))
     (issues_files d))"

text \<open>The issues a file covers, lines 254 to 266: \<open>(calculated_issue_number, issue_id)\<close>
  in ascending order of the first.\<close>

definition covered_issues :: "database \<Rightarrow> int \<Rightarrow> (rat \<times> int) list" where
  "covered_issues d fid =
     sort_key fst
       (concat (map (\<lambda>i.
          concat (map (\<lambda>l.
            if iss_id i = link_issue_id l \<and> link_file_id l = fid
            then [(iss_calculated_issue_number i, link_issue_id l)] else [])
          (issues_files d)))
        (issues d)))"

definition count_issues :: "database \<Rightarrow> int \<Rightarrow> nat" where
  "count_issues d volume_id = length (filter (\<lambda>i. iss_volume_id i = volume_id) (issues d))"

text \<open>Lines 267 to 276: the name of a file before the collision resolver sees it.
  \<^verbatim>\<open>issues[0]\<close> of an empty list is an \<^verbatim>\<open>IndexError\<close>.\<close>

definition generated_name :: "world \<Rightarrow> int \<Rightarrow> nat \<Rightarrow> (rat \<times> int) list \<Rightarrow> error + string" where
  "generated_name w volume_id issues_in_volume covered =
     (if length covered > 1 then
        (if length covered = issues_in_volume then generate_tpb_name w volume_id
         else generate_issue_range_name w volume_id (fst (hd covered)) (fst (last covered)))
      else (case covered of
              [] \<Rightarrow> Inl IndexError
            | first # rest \<Rightarrow> generate_issue_name w volume_id (snd first)))"

text \<open>The \<^verbatim>\<open>for file in file_infos\<close> loop, lines 247 to 288.\<close>

fun preview_loop :: "world \<Rightarrow> int \<Rightarrow> string \<Rightarrow> nat \<Rightarrow> file_row list \<Rightarrow> rename_entry list \<Rightarrow> error + rename_entry list" where
  "preview_loop w volume_id folder issues_in_volume [] result = Inr result"
| "preview_loop w volume_id folder issues_in_volume (f # file_infos) result =
     (if \<not> isfile (w_fs w) (filepath f)
      then preview_loop w volume_id folder issues_in_volume file_infos result
      else (case generated_name w volume_id issues_in_volume (covered_issues (w_db w) (file_id f)) of
              Inl e \<Rightarrow> Inl e
            | Inr name \<Rightarrow>
                (let name1 = same_name_indexing (w_fs w) name (filepath f) folder result;
                     name2 = join folder (name1 @ snd (splitext (filepath f)))
                 in preview_loop w volume_id folder issues_in_volume file_infos
                      (if filepath f \<noteq> name2
                       then result @ [\<lparr>before = filepath f, after = name2\<rparr>]
                       else result))))"

text \<open>Lines 200 to 241: the files and the destination folder of the two modes.
  \<^verbatim>\<open>fetchone()[0]\<close> on no root folder is a \<^verbatim>\<open>TypeError\<close>, \<^verbatim>\<open>file_infos[0]\<close> on no file
  an \<^verbatim>\<open>IndexError\<close>.\<close>

definition rename_scope :: "world \<Rightarrow> int \<Rightarrow> int option \<Rightarrow> error + (file_row list \<times> string)" where
  "rename_scope w volume_id issue_id =
     (case issue_id of
        None \<Rightarrow>
          (case find (\<lambda>rf. list_ex (\<lambda>v. vol_root_folder v = rf_id rf \<and> vol_id v = volume_id)
                             (volumes (w_db w)))
                  (root_folders (w_db w)) of
             None \<Rightarrow> Inl TypeError
           | Some rf \<Rightarrow>
               (case generate_volume_folder_name w volume_id of
                  Inl e \<Rightarrow> Inl e
                | Inr name \<Rightarrow> Inr (volume_file_infos (w_db w) volume_id, join (rf_folder rf) name)))
      | Some iid \<Rightarrow>
          (case issue_file_infos (w_db w) iid of
             [] \<Rightarrow> Inl IndexError
           | f # file_infos \<Rightarrow> Inr (f # file_infos, dirname (filepath f))))"

definition preview_mass_rename :: "world \<Rightarrow> int \<Rightarrow> int option \<Rightarrow> error + rename_entry list" where
  "preview_mass_rename w volume_id issue_id =
     (case rename_scope w volume_id issue_id of
        Inl e \<Rightarrow> Inl e
      | Inr (file_infos, folder) \<Rightarrow>
          preview_loop w volume_id folder (count_issues (w_db w) volume_id) file_infos [])"

section \<open>Renaming: the applier\<close>

text \<open>The two \<^verbatim>\<open>UPDATE\<close> statements of \<^verbatim>\<open>mass_rename\<close>.\<close>

definition update_volume_folder :: "database \<Rightarrow> string \<Rightarrow> int \<Rightarrow> database" where
  "update_volume_folder d folder volume_id =
     d\<lparr>volumes := map (\<lambda>v. if vol_id v = volume_id then v\<lparr>vol_folder := PStr folder\<rparr> else v)
                     (volumes d)\<rparr>"

definition update_filepath :: "database \<Rightarrow> string \<Rightarrow> string \<Rightarrow> database" where
  "update_filepath d new old =
     d\<lparr>files := map (\<lambda>f. if filepath f = old then f\<lparr>filepath := new\<rparr> else f) (files d)\<rparr>"

text \<open>
  \<^verbatim>\<open>rename_file\<close> of \<^verbatim>\<open>backend.files\<close> is a parameter: it moves a file or raises, and a
  move that raises leaves the model's file system as it was. The \<^verbatim>\<open>for r in renames\<close>
  loop returns the error that stopped it, if any, and the world it left.
\<close>

type_synonym move = "filesystem \<Rightarrow> string \<Rightarrow> string \<Rightarrow> error + filesystem"

fun rename_loop :: "move \<Rightarrow> world \<Rightarrow> rename_entry list \<Rightarrow> error option \<times> world" where
  "rename_loop rename_file w [] = (None, w)"
| "rename_loop rename_file w (r # renames) =
     (case rename_file (w_fs w) (before r) (after r) of
        Inl e \<Rightarrow> (Some e, w)
      | Inr fs' \<Rightarrow>
          rename_loop rename_file
            (w\<lparr>w_fs := fs', w_db := update_filepath (w_db w) (after r) (before r)\<rparr>) renames)"

definition mass_rename :: "move \<Rightarrow> world \<Rightarrow> int \<Rightarrow> int option \<Rightarrow> error option \<times> world" where
  "mass_rename rename_file w volume_id issue_id =
     (case preview_mass_rename w volume_id issue_id of
        Inl e \<Rightarrow> (Some e, w)
      | Inr renames \<Rightarrow>
          rename_loop rename_file
            (if \<not> id_truthy issue_id \<and> renames \<noteq> []
             then w\<lparr>w_db := update_volume_folder (w_db w) (dirname (after (hd renames))) volume_id\<rparr>
             else w)
            renames)"

section \<open>Notions the properties are stated with\<close>

text \<open>
  The strings the pattern of \<^verbatim>\<open>same_name_indexing\<close> matches for a suggested name: the
  name, or the name and \<^verbatim>\<open> (digits)\<close> with at least one decimal digit, either of them
  optionally followed by one newline.
\<close>

definition same_name_variant :: "string \<Rightarrow> string \<Rightarrow> bool" where
  "same_name_variant s r =
     (\<exists>ds nl. (nl = [] \<or> nl = [newline])
        \<and> (r = s @ nl \<or> (ds \<noteq> [] \<and> list_all is_digit ds \<and> r = s @ '' ('' @ ds @ '')'' @ nl)))"

text \<open>
  The names claim C4 counts as taken, in its words: the suggested name, or the name
  followed by \<^verbatim>\<open> (N)\<close> for a positive integer \<open>N\<close>.
\<close>

definition claimed_same_name :: "string \<Rightarrow> string \<Rightarrow> bool" where
  "claimed_same_name s r = (r = s \<or> (\<exists>N>0. r = indexed_name s N))"










section \<open>Example states\<close>

text \<open>A database with one volume of a given title and nothing else.\<close>

definition titled_volume :: "pyval \<Rightarrow> volume" where
  "titled_volume title =
     \<lparr>vol_id = 1, vol_comicvine_id = PInt 2127, vol_title = title, vol_year = PInt 1963,
      vol_publisher = PStr ''Marvel'', vol_volume_number = PInt 1, vol_root_folder = 1,
      vol_folder = PNone\<rparr>"

definition titled_db :: "pyval \<Rightarrow> database" where
  "titled_db title =
     \<lparr>volumes = [titled_volume title], issues = [], files = [], issues_files = [],
      root_folders = [\<lparr>rf_id = 1, rf_folder = ''/comics''\<rparr>]\<rparr>"

text \<open>
  A volume of five issues with calculated numbers 1 to 5 and three files: one covers
  issues 1 and 2 (its links stored in the other order), one covers all five, one covers
  issue 3. The templates are the defaults of \<^verbatim>\<open>settings.py\<close>.
\<close>

definition shelf_issue :: "int \<Rightarrow> issue" where
  "shelf_issue n =
     \<lparr>iss_id = n, iss_volume_id = 1, iss_comicvine_id = PInt (9000 + n),
      iss_issue_number = PStr (str_int n), iss_calculated_issue_number = of_int n,
      iss_title = PNone, iss_date = PStr ''1940-04-25''\<rparr>"

definition default_settings :: settings where
  "default_settings =
     \<lparr>volume_folder_naming = ''{series_name}/Volume {volume_number} ({year})'',
      file_naming = ''{series_name} ({year}) Volume {volume_number} Issue {issue_number}'',
      file_naming_tpb = ''{series_name} ({year}) Volume {volume_number} TPB''\<rparr>"

definition shelf_db :: database where
  "shelf_db =
     \<lparr>volumes =
        [\<lparr>vol_id = 1, vol_comicvine_id = PInt 796, vol_title = PStr ''Batman'',
          vol_year = PInt 1940, vol_publisher = PStr ''DC'', vol_volume_number = PInt 1,
          vol_root_folder = 1, vol_folder = PNone\<rparr>],
      issues = map shelf_issue [1, 2, 3, 4, 5],
      files =
        [\<lparr>file_id = 1, filepath = ''/in/a.cbz''\<rparr>,
         \<lparr>file_id = 2, filepath = ''/in/b.cbz''\<rparr>,
         \<lparr>file_id = 3, filepath = ''/in/c.cbz''\<rparr>],
      issues_files =
        [\<lparr>link_file_id = 1, link_issue_id = 2\<rparr>, \<lparr>link_file_id = 1, link_issue_id = 1\<rparr>,
         \<lparr>link_file_id = 2, link_issue_id = 1\<rparr>, \<lparr>link_file_id = 2, link_issue_id = 2\<rparr>,
         \<lparr>link_file_id = 2, link_issue_id = 3\<rparr>, \<lparr>link_file_id = 2, link_issue_id = 4\<rparr>,
         \<lparr>link_file_id = 2, link_issue_id = 5\<rparr>, \<lparr>link_file_id = 3, link_issue_id = 3\<rparr>],
      root_folders = [\<lparr>rf_id = 1, rf_folder = ''/comics''\<rparr>]\<rparr>"

text \<open>A file system given by the paths of its files; a directory lists the files in it.\<close>

definition fs_of :: "string list \<Rightarrow> filesystem" where
  "fs_of paths =
     \<lparr>isfile = (\<lambda>p. p \<in> set paths),
      isdir = (\<lambda>d. d \<in> set (map dirname paths)),
      listdir = (\<lambda>d. map basename (filter (\<lambda>p. dirname p = d) paths))\<rparr>"

definition shelf_world :: world where
  "shelf_world =
     \<lparr>w_db = shelf_db, w_settings = default_settings,
      w_fs = fs_of [''/in/a.cbz'', ''/in/b.cbz'', ''/in/c.cbz'']\<rparr>"

text \<open>
  Modelled from the spec: the move primitive \<^verbatim>\<open>move(oldPath, newPath)\<close> that
  \<^verbatim>\<open>rename_file\<close> of \<^verbatim>\<open>backend.files\<close> performs, which succeeds or fails. Here it fails
  when the old path is not a file; when it succeeds the new path is a file in its
  directory, which then exists, and the old path is gone from its own.
\<close>

definition moved :: "filesystem \<Rightarrow> string \<Rightarrow> string \<Rightarrow> filesystem" where
  "moved fs old new =
     \<lparr>isfile = (\<lambda>p. p = new \<or> (p \<noteq> old \<and> isfile fs p)),
      isdir = (\<lambda>d. d = dirname new \<or> isdir fs d),
      listdir = (\<lambda>d.
        (let kept = (if d = dirname old then removeAll (basename old) (listdir fs d)
                     else listdir fs d)
         in if d = dirname new then removeAll (basename new) kept @ [basename new] else kept))\<rparr>"

definition move_file :: move where
  "move_file fs old new = (if isfile fs old then Inr (moved fs old new) else Inl MoveFailure)"

text \<open>A move primitive that fails for one destination and moves otherwise.\<close>

definition refusing_move :: "string \<Rightarrow> move" where
  "refusing_move refused fs old new =
     (if new = refused then Inl MoveFailure else move_file fs old new)"

text \<open>
  Small states: one volume \<^verbatim>\<open>S\<close> under the root folder \<^verbatim>\<open>/r\<close>, short templates, and
  the issues, files and links given.
\<close>

definition tiny_settings :: settings where
  "tiny_settings =
     \<lparr>volume_folder_naming = ''{series_name}'', file_naming = ''{issue_number}'',
      file_naming_tpb = ''T''\<rparr>"

definition tiny_issue :: "int \<Rightarrow> int \<Rightarrow> issue" where
  "tiny_issue i n =
     \<lparr>iss_id = i, iss_volume_id = 1, iss_comicvine_id = PInt 7,
      iss_issue_number = PStr (str_int n), iss_calculated_issue_number = of_int n,
      iss_title = PNone, iss_date = PNone\<rparr>"

definition tiny_db :: "issue list \<Rightarrow> file_row list \<Rightarrow> issue_file list \<Rightarrow> database" where
  "tiny_db iss fls links =
     \<lparr>volumes =
        [\<lparr>vol_id = 1, vol_comicvine_id = PInt 5, vol_title = PStr ''S'', vol_year = PInt 1999,
          vol_publisher = PNone, vol_volume_number = PInt 1, vol_root_folder = 1,
          vol_folder = PNone\<rparr>],
      issues = iss, files = fls, issues_files = links,
      root_folders = [\<lparr>rf_id = 1, rf_folder = ''/r''\<rparr>]\<rparr>"

text \<open>Three files outside the volume folder, one for each of three issues.\<close>

definition three_files_world :: world where
  "three_files_world =
     \<lparr>w_db = tiny_db [tiny_issue 1 1, tiny_issue 2 2, tiny_issue 3 3]
               [\<lparr>file_id = 1, filepath = ''/i/a.z''\<rparr>, \<lparr>file_id = 2, filepath = ''/i/b.z''\<rparr>,
                \<lparr>file_id = 3, filepath = ''/i/c.z''\<rparr>]
               [\<lparr>link_file_id = 1, link_issue_id = 1\<rparr>, \<lparr>link_file_id = 2, link_issue_id = 2\<rparr>,
                \<lparr>link_file_id = 3, link_issue_id = 3\<rparr>],
      w_settings = tiny_settings,
      w_fs = fs_of [''/i/a.z'', ''/i/b.z'', ''/i/c.z'']\<rparr>"


text \<open>
  A volume whose second issue has id 0, and one file that covers it and the first
  issue, in a folder of its own.
\<close>

definition zero_issue_world :: world where
  "zero_issue_world =
     \<lparr>w_db = tiny_db [tiny_issue 1 1, tiny_issue 0 2, tiny_issue 2 3]
               [\<lparr>file_id = 1, filepath = ''/d/x.z''\<rparr>]
               [\<lparr>link_file_id = 1, link_issue_id = 0\<rparr>, \<lparr>link_file_id = 1, link_issue_id = 1\<rparr>],
      w_settings = tiny_settings,
      w_fs = fs_of [''/d/x.z'']\<rparr>"

text \<open>
  Two volumes, and a file that covers issue 1 of the first and the issue of the second,
  whose calculated number 0 comes first in order.
\<close>

definition two_volumes_world :: world where
  "two_volumes_world =
     \<lparr>w_db =
        \<lparr>volumes =
           [\<lparr>vol_id = 1, vol_comicvine_id = PInt 5, vol_title = PStr ''S'', vol_year = PInt 1999,
             vol_publisher = PNone, vol_volume_number = PInt 1, vol_root_folder = 1,
             vol_folder = PNone\<rparr>,
            \<lparr>vol_id = 2, vol_comicvine_id = PInt 6, vol_title = PStr ''T'', vol_year = PInt 2001,
             vol_publisher = PNone, vol_volume_number = PInt 1, vol_root_folder = 1,
             vol_folder = PNone\<rparr>],
         issues =
           [tiny_issue 1 1, tiny_issue 2 2, tiny_issue 3 3,
            (tiny_issue 9 0)\<lparr>iss_volume_id := 2\<rparr>],
         files = [\<lparr>file_id = 1, filepath = ''/i/a.z''\<rparr>],
         issues_files =
           [\<lparr>link_file_id = 1, link_issue_id = 1\<rparr>, \<lparr>link_file_id = 1, link_issue_id = 9\<rparr>],
         root_folders = [\<lparr>rf_id = 1, rf_folder = ''/r''\<rparr>]\<rparr>,
      w_settings = tiny_settings,
      w_fs = fs_of [''/i/a.z'']\<rparr>"


section \<open>Properties of name generation and format checking\<close>

text \<open>
  C1. The claim: for a title that starts with \<^verbatim>\<open>The \<close> or \<^verbatim>\<open>A \<close>, \<^verbatim>\<open>clean_series_name\<close> is
  the title with the article moved to the end, so \<^verbatim>\<open>The Amazing Spider-Man\<close> gives
  \<^verbatim>\<open>Amazing Spider-Man, The\<close>. The code appends the article and does not remove it from
  the front: the formatting context of \<^verbatim>\<open>The Amazing Spider-Man\<close> holds
  \<^verbatim>\<open>The Amazing Spider-Man, The\<close>, that of \<^verbatim>\<open>A History\<close> holds \<^verbatim>\<open>A History, A\<close>; only a
  title with neither article, as \<^verbatim>\<open>Batman\<close>, comes out as the claim says.
\<close>

theorem clean_series_name_keeps_leading_article:
  "(case get_formatting_data (titled_db (PStr ''The Amazing Spider-Man'')) 1 None of
      Inl e \<Rightarrow> None | Inr formatting_data \<Rightarrow> formatting_data ''clean_series_name'')
     = Some (PStr ''The Amazing Spider-Man, The'')
   \<and> (case get_formatting_data (titled_db (PStr ''A History'')) 1 None of
      Inl e \<Rightarrow> None | Inr formatting_data \<Rightarrow> formatting_data ''clean_series_name'')
     = Some (PStr ''A History, A'')
   \<and> (case get_formatting_data (titled_db (PStr ''Batman'')) 1 None of
      Inl e \<Rightarrow> None | Inr formatting_data \<Rightarrow> formatting_data ''clean_series_name'')
     = Some (PStr ''Batman'')"
  by (simp add: get_formatting_data_def titled_db_def titled_volume_def clean_title_def
      startswith_def or_unknown_def)

text \<open>
  C2. The claim: a \<^verbatim>\<open>file_naming\<close> or \<^verbatim>\<open>file_naming_tpb\<close> template that contains a forward
  slash or a single backslash is rejected. The code tests \<^verbatim>\<open>r'\\' in format\<close>, and the raw
  string \<^verbatim>\<open>r'\\'\<close> is two backslashes: a template with one backslash passes for both
  kinds, one with two in a row is rejected, as is one with a forward slash.
\<close>

theorem check_format_accepts_single_backslash:
  "check_format [CHR ''a'', backslash, CHR ''b''] ''file_naming'' = Inr ()
   \<and> check_format [CHR ''a'', backslash, CHR ''b''] ''file_naming_tpb'' = Inr ()
   \<and> check_format [CHR ''a'', backslash, backslash, CHR ''b''] ''file_naming''
       = Inl (InvalidSettingValue ''Path seperator found'')
   \<and> check_format ''{series_name}/{volume_number}'' ''file_naming''
       = Inl (InvalidSettingValue ''Path seperator found'')"
  by code_simp

text \<open>
  C7. The claim: \<^verbatim>\<open>generate_issue_range_name\<close> fails with \<^verbatim>\<open>IssueNotFound\<close> when no issue
  of the volume has the start value as its calculated number. The code subscripts the
  result of \<^verbatim>\<open>fetchone()\<close> unchecked, so the failure is a \<^verbatim>\<open>TypeError\<close>: no issue of the
  example volume has calculated number 7; and the planner comes to it for a file that
  covers an issue of volume 1 and, before it in order, an issue of volume 2.
\<close>

theorem generate_issue_range_name_without_start_issue:
  "generate_issue_range_name shelf_world 1 7 8 = Inl TypeError
   \<and> preview_mass_rename two_volumes_world 1 None = Inl TypeError"
  by code_simp

text \<open>
  C9. The claim: a missing or empty volume field becomes \<^verbatim>\<open>Unknown\<close>, and a volume whose
  title is \<^verbatim>\<open>NULL\<close> still gets a formatting context, with \<^verbatim>\<open>Unknown\<close> as its
  \<^verbatim>\<open>clean_series_name\<close>. The code calls \<^verbatim>\<open>startswith\<close> on the title before any fallback:
  for a \<^verbatim>\<open>NULL\<close> title it raises \<^verbatim>\<open>AttributeError\<close> and builds no context.
\<close>

theorem get_formatting_data_null_title_raises:
  "get_formatting_data (titled_db PNone) 1 None = Inl AttributeError"
  by (simp add: get_formatting_data_def titled_db_def titled_volume_def clean_title_def)

section \<open>Properties of the collision resolver\<close>

lemma index_loop_zero_free: "s \<notin> set names \<Longrightarrow> index_loop s names 0 = s"
  by (subst index_loop.simps) simp

lemma index_loop_zero_taken: "s \<in> set names \<Longrightarrow> index_loop s names 0 = index_loop s names 1"
  by (subst index_loop.simps) simp

lemma index_loop_from:
  assumes "0 < i"
  shows "\<exists>N\<ge>i. index_loop s names i = indexed_name s N \<and> indexed_name s N \<notin> set names
           \<and> (\<forall>M. i \<le> M \<and> M < N \<longrightarrow> indexed_name s M \<in> set names)"
  using assms
proof (induction s names i rule: index_loop.induct)
  case (1 s names i)
  show ?case
  proof (cases "indexed_name s i \<in> set names")
    case False
    with 1(2) have "index_loop s names i = indexed_name s i"
      by (subst index_loop.simps) (simp add: indexed_name_def)
    with False show ?thesis by auto
  next
    case True
    with 1(2) have step: "index_loop s names i = index_loop s names (i + 1)"
      by (subst index_loop.simps) simp
    from 1(1) True 1(2)
    obtain N where N: "i + 1 \<le> N" "index_loop s names (i + 1) = indexed_name s N"
      "indexed_name s N \<notin> set names"
      "\<forall>M. i + 1 \<le> M \<and> M < N \<longrightarrow> indexed_name s M \<in> set names"
      by auto
    have "\<forall>M. i \<le> M \<and> M < N \<longrightarrow> indexed_name s M \<in> set names"
    proof (intro allI impI)
      fix M assume "i \<le> M \<and> M < N"
      then show "indexed_name s M \<in> set names"
        using True N(4) by (cases "M = i") auto
    qed
    with N step show ?thesis by (intro exI [of _ N]) auto
  qed
qed

text \<open>
  C3. Whatever the suggested name, the planned entries and the folder: a suggested name
  that is not among the taken names comes back unchanged; one that is taken comes back
  as \<^verbatim>\<open>name (N)\<close> for the smallest \<open>N > 0\<close> whose \<^verbatim>\<open>name (N)\<close> is not taken.
\<close>

theorem same_name_indexing_first_free_name:
  "(suggested_name \<notin> set (same_names fs suggested_name current_name folder planned_names)
      \<longrightarrow> same_name_indexing fs suggested_name current_name folder planned_names = suggested_name)
   \<and> (suggested_name \<in> set (same_names fs suggested_name current_name folder planned_names)
      \<longrightarrow> (\<exists>N>0.
            same_name_indexing fs suggested_name current_name folder planned_names
              = indexed_name suggested_name N
            \<and> indexed_name suggested_name N
                \<notin> set (same_names fs suggested_name current_name folder planned_names)
            \<and> (\<forall>M. 0 < M \<and> M < N \<longrightarrow> indexed_name suggested_name M
                  \<in> set (same_names fs suggested_name current_name folder planned_names))))"
proof -
  define names where "names = same_names fs suggested_name current_name folder planned_names"
  have free: "suggested_name \<notin> set names
      \<Longrightarrow> same_name_indexing fs suggested_name current_name folder planned_names = suggested_name"
    unfolding same_name_indexing_def Let_def names_def [symmetric]
    by (simp add: index_loop_zero_free)
  have taken: "\<exists>N>0. same_name_indexing fs suggested_name current_name folder planned_names
              = indexed_name suggested_name N
            \<and> indexed_name suggested_name N \<notin> set names
            \<and> (\<forall>M. 0 < M \<and> M < N \<longrightarrow> indexed_name suggested_name M \<in> set names)"
    if mem: "suggested_name \<in> set names"
  proof -
    from mem have ne: "names \<noteq> []" by auto
    have eq: "same_name_indexing fs suggested_name current_name folder planned_names
          = index_loop suggested_name names 1"
      unfolding same_name_indexing_def Let_def names_def [symmetric]
      using ne mem by (simp add: index_loop_zero_taken)
    from index_loop_from [of 1 suggested_name names]
    obtain N where "1 \<le> N" "index_loop suggested_name names 1 = indexed_name suggested_name N"
      "indexed_name suggested_name N \<notin> set names"
      "\<forall>M. 1 \<le> M \<and> M < N \<longrightarrow> indexed_name suggested_name M \<in> set names"
      by auto
    with eq show ?thesis by (intro exI [of _ N]) (auto simp: Suc_le_eq)
  qed
  from free taken show ?thesis unfolding names_def by blast
qed

text \<open>
  The folder holds \<^verbatim>\<open>Foo.cbz\<close> and the plan already has an entry that ends in
  \<^verbatim>\<open>Foo.cbz\<close>: a second candidate \<^verbatim>\<open>Foo\<close> becomes \<^verbatim>\<open>Foo (1)\<close>, a third \<^verbatim>\<open>Foo (2)\<close>,
  and a candidate \<^verbatim>\<open>Bar\<close> stays \<^verbatim>\<open>Bar\<close>.
\<close>

theorem same_name_indexing_first_free_name_witness:
  "''Foo'' \<in> set (same_names (fs_of [''/comics/Foo/Foo.cbz'']) ''Foo'' ''/in/b.cbz'' ''/comics/Foo''
                   [\<lparr>before = ''/in/a.cbz'', after = ''/comics/Foo/Foo.cbz''\<rparr>])
   \<and> (\<exists>N>0. same_name_indexing (fs_of [''/comics/Foo/Foo.cbz'']) ''Foo'' ''/in/b.cbz'' ''/comics/Foo''
                [\<lparr>before = ''/in/a.cbz'', after = ''/comics/Foo/Foo.cbz''\<rparr>] = indexed_name ''Foo'' N)
   \<and> same_name_indexing (fs_of [''/comics/Foo/Foo.cbz'']) ''Foo'' ''/in/b.cbz'' ''/comics/Foo''
        [\<lparr>before = ''/in/a.cbz'', after = ''/comics/Foo/Foo.cbz''\<rparr>] = ''Foo (1)''
   \<and> same_name_indexing (fs_of [''/comics/Foo/Foo.cbz'']) ''Foo'' ''/in/c.cbz'' ''/comics/Foo''
        [\<lparr>before = ''/in/a.cbz'', after = ''/comics/Foo/Foo.cbz''\<rparr>,
         \<lparr>before = ''/in/b.cbz'', after = ''/comics/Foo/Foo (1).cbz''\<rparr>] = ''Foo (2)''
   \<and> ''Bar'' \<notin> set (same_names (fs_of [''/comics/Foo/Foo.cbz'']) ''Bar'' ''/in/b.cbz'' ''/comics/Foo''
                   [\<lparr>before = ''/in/a.cbz'', after = ''/comics/Foo/Foo.cbz''\<rparr>])
   \<and> same_name_indexing (fs_of [''/comics/Foo/Foo.cbz'']) ''Bar'' ''/in/b.cbz'' ''/comics/Foo''
        [\<lparr>before = ''/in/a.cbz'', after = ''/comics/Foo/Foo.cbz''\<rparr>] = ''Bar''"
proof -
  let ?fs = "fs_of [''/comics/Foo/Foo.cbz'']"
  let ?plan = "[\<lparr>before = ''/in/a.cbz'', after = ''/comics/Foo/Foo.cbz''\<rparr>]"
  have taken: "''Foo'' \<in> set (same_names ?fs ''Foo'' ''/in/b.cbz'' ''/comics/Foo'' ?plan)"
    by code_simp
  have free: "''Bar'' \<notin> set (same_names ?fs ''Bar'' ''/in/b.cbz'' ''/comics/Foo'' ?plan)"
    by code_simp
  from same_name_indexing_first_free_name [of "''Foo''" ?fs "''/in/b.cbz''" "''/comics/Foo''" ?plan] taken
  have indexed: "\<exists>N>0. same_name_indexing ?fs ''Foo'' ''/in/b.cbz'' ''/comics/Foo'' ?plan
                        = indexed_name ''Foo'' N"
    by blast
  from same_name_indexing_first_free_name [of "''Bar''" ?fs "''/in/b.cbz''" "''/comics/Foo''" ?plan] free
  have bar: "same_name_indexing ?fs ''Bar'' ''/in/b.cbz'' ''/comics/Foo'' ?plan = ''Bar''"
    by blast
  have second: "same_name_indexing ?fs ''Foo'' ''/in/b.cbz'' ''/comics/Foo'' ?plan = ''Foo (1)''"
    by code_simp
  have third: "same_name_indexing ?fs ''Foo'' ''/in/c.cbz'' ''/comics/Foo''
        [\<lparr>before = ''/in/a.cbz'', after = ''/comics/Foo/Foo.cbz''\<rparr>,
         \<lparr>before = ''/in/b.cbz'', after = ''/comics/Foo/Foo (1).cbz''\<rparr>] = ''Foo (2)''"
    by code_simp
  from taken indexed second third free bar show ?thesis by (intro conjI)
qed

subsection \<open>What the pattern matches\<close>

lemma digit_rests_iff:
  "u \<in> set (digit_rests t) \<longleftrightarrow> (\<exists>ds. ds \<noteq> [] \<and> list_all is_digit ds \<and> t = ds @ u)"
proof (induction t)
  case Nil
  then show ?case by simp
next
  case (Cons c cs)
  show ?case
  proof (cases "is_digit c")
    case False
    then show ?thesis by (auto simp: Cons_eq_append_conv)
  next
    case True
    have "u \<in> set (digit_rests (c # cs)) \<longleftrightarrow> u = cs \<or> u \<in> set (digit_rests cs)"
      using True by auto
    also have "\<dots> \<longleftrightarrow> u = cs \<or> (\<exists>ds. ds \<noteq> [] \<and> list_all is_digit ds \<and> cs = ds @ u)"
      using Cons.IH by simp
    also have "\<dots> \<longleftrightarrow> (\<exists>ds. ds \<noteq> [] \<and> list_all is_digit ds \<and> c # cs = ds @ u)"
    proof
      assume "u = cs \<or> (\<exists>ds. ds \<noteq> [] \<and> list_all is_digit ds \<and> cs = ds @ u)"
      then show "\<exists>ds. ds \<noteq> [] \<and> list_all is_digit ds \<and> c # cs = ds @ u"
      proof
        assume "u = cs"
        then show ?thesis using True by (intro exI [of _ "[c]"]) simp
      next
        assume "\<exists>ds. ds \<noteq> [] \<and> list_all is_digit ds \<and> cs = ds @ u"
        then obtain ds where "ds \<noteq> []" "list_all is_digit ds" "cs = ds @ u" by blast
        then show ?thesis using True by (intro exI [of _ "c # ds"]) simp
      qed
    next
      assume "\<exists>ds. ds \<noteq> [] \<and> list_all is_digit ds \<and> c # cs = ds @ u"
      then obtain ds where ds: "ds \<noteq> []" "list_all is_digit ds" "c # cs = ds @ u" by blast
      then obtain ds' where ds': "ds = c # ds'" "cs = ds' @ u"
        by (cases ds) auto
      show "u = cs \<or> (\<exists>ds. ds \<noteq> [] \<and> list_all is_digit ds \<and> cs = ds @ u)"
      proof (cases "ds' = []")
        case True
        with ds' show ?thesis by simp
      next
        case False
        with ds ds' show ?thesis by auto
      qed
    qed
    finally show ?thesis .
  qed
qed

lemma startswith_iff: "startswith r s \<longleftrightarrow> (\<exists>t. r = s @ t)"
  unfolding startswith_def
  by (metis append_eq_conv_conj append_take_drop_id)

lemma in_rests_Lit: "u \<in> set (rx_rests (Lit l) s) \<longleftrightarrow> s = l @ u"
  by (auto simp: startswith_iff)

lemma in_rests_Seq:
  "u \<in> set (rx_rests (Seq a b) s) \<longleftrightarrow> (\<exists>v. v \<in> set (rx_rests a s) \<and> u \<in> set (rx_rests b v))"
  by auto

lemma in_rests_Opt: "u \<in> set (rx_rests (Opt a) s) \<longleftrightarrow> u = s \<or> u \<in> set (rx_rests a s)"
  by auto

lemma in_rests_Eos: "u \<in> set (rx_rests Eos s) \<longleftrightarrow> u = s \<and> (s = [] \<or> s = [newline])"
  by auto

lemma in_rests_Digits1:
  "u \<in> set (rx_rests Digits1 s) \<longleftrightarrow> (\<exists>ds. ds \<noteq> [] \<and> list_all is_digit ds \<and> s = ds @ u)"
  by (simp add: digit_rests_iff)

lemma re_match_iff: "re_match r s \<longleftrightarrow> (\<exists>u. u \<in> set (rx_rests r s))"
  unfolding re_match_def by (cases "rx_rests r s") auto

lemma re_match_same_name_pattern:
  "re_match (same_name_pattern s) r = same_name_variant s r"
proof -
  have "re_match (same_name_pattern s) r \<longleftrightarrow>
      (\<exists>u t. r = s @ t \<and> (t = u \<or> (\<exists>ds. ds \<noteq> [] \<and> list_all is_digit ds \<and> t = '' ('' @ ds @ '')'' @ u))
          \<and> (u = [] \<or> u = [newline]))"
    unfolding re_match_iff same_name_pattern_def
    by (simp only: in_rests_Seq in_rests_Lit in_rests_Opt in_rests_Eos in_rests_Digits1) (auto; blast)
  also have "\<dots> \<longleftrightarrow> same_name_variant s r"
    unfolding same_name_variant_def by (auto; blast)
  finally show ?thesis .
qed

lemma str_nat_not_Nil: "str_nat n \<noteq> []"
  by (subst str_nat.simps) simp

lemma digit_char_zero: "d < 10 \<Longrightarrow> digit_char d = CHR ''0'' \<Longrightarrow> d = 0"
proof -
  assume "d < 10" and z: "digit_char d = CHR ''0''"
  then have "d \<in> {0, 1, 2, 3, 4, 5, 6, 7, 8, 9}" by auto
  with z show "d = 0" by (auto simp: digit_char_def)
qed

lemma str_nat_zero: "str_nat n = ''0'' \<Longrightarrow> n = 0"
proof (cases "n < 10")
  case True
  assume "str_nat n = ''0''"
  with True have "digit_char n = CHR ''0''" by (subst (asm) str_nat.simps) simp
  with True show ?thesis by (rule digit_char_zero)
next
  case False
  assume a: "str_nat n = ''0''"
  from False have "str_nat n = str_nat (n div 10) @ [digit_char (n mod 10)]"
    by (subst str_nat.simps) simp
  with a have "str_nat (n div 10) = []" by simp
  with str_nat_not_Nil show ?thesis by blast
qed

text \<open>
  C4, as claimed, fails: with a planned entry that ends in \<^verbatim>\<open>Foo (0).cbz\<close> the name
  \<^verbatim>\<open>Foo (0)\<close> is among the names taken for \<^verbatim>\<open>Foo\<close>, and it is neither \<^verbatim>\<open>Foo\<close> nor
  \<^verbatim>\<open>Foo (N)\<close> for a positive \<open>N\<close>.
\<close>

theorem same_names_zero_suffix_counterexample:
  "''Foo (0)'' \<in> set (same_names (fs_of []) ''Foo'' ''/in/b.cbz'' ''/comics/Foo''
                      [\<lparr>before = ''/in/a.cbz'', after = ''/comics/Foo/Foo (0).cbz''\<rparr>])
   \<and> \<not> claimed_same_name ''Foo'' ''Foo (0)''"
proof
  show "''Foo (0)'' \<in> set (same_names (fs_of []) ''Foo'' ''/in/b.cbz'' ''/comics/Foo''
            [\<lparr>before = ''/in/a.cbz'', after = ''/comics/Foo/Foo (0).cbz''\<rparr>])"
    by code_simp
  show "\<not> claimed_same_name ''Foo'' ''Foo (0)''"
    unfolding claimed_same_name_def indexed_name_def
    by (auto dest: str_nat_zero [OF sym])
qed

text \<open>
  C4, amended. The taken names are exactly: the extension-stripped base names of the
  planned entries' after paths and, when the folder exists, of the folder's entries
  other than the base name of the file's own current path, that are the suggested name
  or the suggested name followed by \<^verbatim>\<open> (D)\<close> for a non-empty string \<open>D\<close> of decimal
  digits (zero and leading zeros included), each optionally followed by one final
  newline. So \<^verbatim>\<open>Foo (2) Bar\<close> is never taken for \<^verbatim>\<open>Foo\<close>; and a file whose current base name
  is the suggested name keeps it unless a planned entry has that base name.
\<close>

theorem same_names_exact:
  "set (same_names fs suggested_name current_name folder planned_names) =
       {r. r \<in> set (map (\<lambda>e. fst (splitext (basename (after e)))) planned_names)
           \<and> same_name_variant suggested_name r}
     \<union> {f. isdir fs folder \<and> f \<in> set (map (\<lambda>f. fst (splitext f)) (listdir fs folder))
           \<and> f \<noteq> fst (splitext (basename current_name)) \<and> same_name_variant suggested_name f}
   \<and> ''Foo (2) Bar'' \<notin> set (same_names fs ''Foo'' current_name folder planned_names)
   \<and> (fst (splitext (basename current_name)) = suggested_name
        \<and> suggested_name \<notin> set (map (\<lambda>e. fst (splitext (basename (after e)))) planned_names)
      \<longrightarrow> same_name_indexing fs suggested_name current_name folder planned_names = suggested_name)"
proof -
  have exact: "set (same_names fs s current_name folder planned_names) =
       {r. r \<in> set (map (\<lambda>e. fst (splitext (basename (after e)))) planned_names)
           \<and> same_name_variant s r}
     \<union> {f. isdir fs folder \<and> f \<in> set (map (\<lambda>f. fst (splitext f)) (listdir fs folder))
           \<and> f \<noteq> fst (splitext (basename current_name)) \<and> same_name_variant s f}" for s
    unfolding same_names_def Let_def re_match_same_name_pattern by auto
  have "\<not> same_name_variant ''Foo'' ''Foo (2) Bar''"
    unfolding re_match_same_name_pattern [symmetric] by code_simp
  then have bar: "''Foo (2) Bar'' \<notin> set (same_names fs ''Foo'' current_name folder planned_names)"
    unfolding exact by simp
  have self: "same_name_indexing fs suggested_name current_name folder planned_names = suggested_name"
    if "fst (splitext (basename current_name)) = suggested_name"
      and "suggested_name \<notin> set (map (\<lambda>e. fst (splitext (basename (after e)))) planned_names)"
  proof -
    from that have "suggested_name \<notin> set (same_names fs suggested_name current_name folder planned_names)"
      unfolding exact by auto
    then show ?thesis
      unfolding same_name_indexing_def Let_def by (simp add: index_loop_zero_free)
  qed
  from exact [of suggested_name] bar self show ?thesis by blast
qed

text \<open>
  A folder with \<^verbatim>\<open>Foo.cbz\<close>, \<^verbatim>\<open>Foo (2) Bar.cbz\<close> and \<^verbatim>\<open>Foo (3).cbz\<close>: for \<^verbatim>\<open>Foo.cbz\<close>
  renamed in place to \<^verbatim>\<open>Foo\<close> only \<^verbatim>\<open>Foo (3)\<close> is taken, and the name stays \<^verbatim>\<open>Foo\<close>.
\<close>

theorem same_names_exact_witness:
  "fst (splitext (basename ''/comics/Foo/Foo.cbz'')) = ''Foo''
   \<and> same_names
        (fs_of [''/comics/Foo/Foo.cbz'', ''/comics/Foo/Foo (2) Bar.cbz'', ''/comics/Foo/Foo (3).cbz''])
        ''Foo'' ''/comics/Foo/Foo.cbz'' ''/comics/Foo'' [] = [''Foo (3)'']
   \<and> same_name_indexing
        (fs_of [''/comics/Foo/Foo.cbz'', ''/comics/Foo/Foo (2) Bar.cbz'', ''/comics/Foo/Foo (3).cbz''])
        ''Foo'' ''/comics/Foo/Foo.cbz'' ''/comics/Foo'' [] = ''Foo''"
proof -
  let ?fs = "fs_of [''/comics/Foo/Foo.cbz'', ''/comics/Foo/Foo (2) Bar.cbz'', ''/comics/Foo/Foo (3).cbz'']"
  have own: "fst (splitext (basename ''/comics/Foo/Foo.cbz'')) = ''Foo''"
    by code_simp
  have unplanned: "''Foo'' \<notin> set (map (\<lambda>e. fst (splitext (basename (after e)))) [])"
    by simp
  have names: "same_names ?fs ''Foo'' ''/comics/Foo/Foo.cbz'' ''/comics/Foo'' [] = [''Foo (3)'']"
    by code_simp
  from same_names_exact [of ?fs "''Foo''" "''/comics/Foo/Foo.cbz''" "''/comics/Foo''" "[]"] own unplanned
  have "same_name_indexing ?fs ''Foo'' ''/comics/Foo/Foo.cbz'' ''/comics/Foo'' [] = ''Foo''"
    by blast
  with own names show ?thesis by (intro conjI)
qed

section \<open>Properties of the planner\<close>

lemma sorted_hd_Min: "sorted xs \<Longrightarrow> xs \<noteq> [] \<Longrightarrow> hd xs = Min (set xs)"
  by (cases xs) (auto intro!: Min_eqI [symmetric])

lemma sorted_last_Max: "sorted xs \<Longrightarrow> xs \<noteq> [] \<Longrightarrow> last xs = Max (set xs)"
proof (induction xs)
  case Nil
  then show ?case by simp
next
  case (Cons x xs)
  show ?case
  proof (cases "xs = []")
    case True
    then show ?thesis by simp
  next
    case False
    with Cons have "last xs = Max (set xs)" by simp
    moreover have "x \<le> Max (set xs)"
    proof -
      from False obtain y where y: "y \<in> set xs" by (cases xs) auto
      with Cons.prems have "x \<le> y" by auto
      also from y have "y \<le> Max (set xs)" by simp
      finally show ?thesis .
    qed
    ultimately show ?thesis using False by (simp add: max_absorb2)
  qed
qed

lemma covered_issues_sorted: "sorted (map fst (covered_issues d fid))"
  unfolding covered_issues_def by simp

text \<open>
  C6. For every file the planner considers, with the issues it covers in ascending order
  of calculated number: one issue gives the single-issue name of that issue; more than
  one, as many as the volume has, gives the collected-edition name; more than one but
  fewer than the volume has gives the range name from the least to the greatest covered
  calculated number.
\<close>

theorem generated_name_by_coverage:
  "(length (covered_issues (w_db w) fid) = 1
      \<longrightarrow> generated_name w volume_id (count_issues (w_db w) volume_id) (covered_issues (w_db w) fid)
          = generate_issue_name w volume_id (snd (hd (covered_issues (w_db w) fid))))
   \<and> (1 < length (covered_issues (w_db w) fid)
        \<and> length (covered_issues (w_db w) fid) = count_issues (w_db w) volume_id
      \<longrightarrow> generated_name w volume_id (count_issues (w_db w) volume_id) (covered_issues (w_db w) fid)
          = generate_tpb_name w volume_id)
   \<and> (1 < length (covered_issues (w_db w) fid)
        \<and> length (covered_issues (w_db w) fid) < count_issues (w_db w) volume_id
      \<longrightarrow> generated_name w volume_id (count_issues (w_db w) volume_id) (covered_issues (w_db w) fid)
          = generate_issue_range_name w volume_id
              (Min (fst ` set (covered_issues (w_db w) fid)))
              (Max (fst ` set (covered_issues (w_db w) fid))))"
proof -
  define covered where "covered = covered_issues (w_db w) fid"
  define n where "n = count_issues (w_db w) volume_id"
  have one: "generated_name w volume_id n covered = generate_issue_name w volume_id (snd (hd covered))"
    if "length covered = 1"
    using that unfolding generated_name_def by (cases covered) auto
  have tpb: "generated_name w volume_id n covered = generate_tpb_name w volume_id"
    if "1 < length covered" "length covered = n"
    using that unfolding generated_name_def by simp
  have range: "generated_name w volume_id n covered
      = generate_issue_range_name w volume_id (Min (fst ` set covered)) (Max (fst ` set covered))"
    if "1 < length covered" "length covered < n"
  proof -
    from that have ne: "map fst covered \<noteq> []" by auto
    have sorted: "sorted (map fst covered)"
      unfolding covered_def by (rule covered_issues_sorted)
    have "fst (hd covered) = hd (map fst covered)" using ne by (simp add: hd_map)
    also have "\<dots> = Min (fst ` set covered)" using sorted_hd_Min [OF sorted ne] by simp
    finally have first: "fst (hd covered) = Min (fst ` set covered)" .
    have "fst (last covered) = last (map fst covered)" using ne by (simp add: last_map)
    also have "\<dots> = Max (fst ` set covered)" using sorted_last_Max [OF sorted ne] by simp
    finally have last: "fst (last covered) = Max (fst ` set covered)" .
    from that first last show ?thesis unfolding generated_name_def by simp
  qed
  from one tpb range show ?thesis unfolding covered_def n_def by blast
qed

text \<open>
  The example volume of five issues: the file of issue 3 gets the single-issue name, the
  file of all five the collected-edition name, and the file of issues 1 and 2 the range
  name with \<^verbatim>\<open>issue_number\<close> \<^verbatim>\<open>1-2\<close>.
\<close>

theorem generated_name_by_coverage_witness:
  "length (covered_issues (w_db shelf_world) 3) = 1
   \<and> generated_name shelf_world 1 (count_issues (w_db shelf_world) 1)
        (covered_issues (w_db shelf_world) 3) = Inr ''Batman (1940) Volume 1 Issue 3''
   \<and> 1 < length (covered_issues (w_db shelf_world) 2)
   \<and> length (covered_issues (w_db shelf_world) 2) = count_issues (w_db shelf_world) 1
   \<and> generated_name shelf_world 1 (count_issues (w_db shelf_world) 1)
        (covered_issues (w_db shelf_world) 2) = Inr ''Batman (1940) Volume 1 TPB''
   \<and> covered_issues (w_db shelf_world) 1 = [(1, 1), (2, 2)]
   \<and> count_issues (w_db shelf_world) 1 = 5
   \<and> generated_name shelf_world 1 (count_issues (w_db shelf_world) 1)
        (covered_issues (w_db shelf_world) 1) = Inr ''Batman (1940) Volume 1 Issue 1-2''
   \<and> (case issue_range_formatting_data shelf_db 1 1 2 of
         Inl e \<Rightarrow> None | Inr formatting_data \<Rightarrow> formatting_data ''issue_number'')
       = Some (PStr ''1-2'')"
proof -
  note by_cov = generated_name_by_coverage [of shelf_world _ 1]
  have cov3: "length (covered_issues (w_db shelf_world) 3) = 1" by code_simp
  have cov2: "1 < length (covered_issues (w_db shelf_world) 2)
      \<and> length (covered_issues (w_db shelf_world) 2) = count_issues (w_db shelf_world) 1"
    by code_simp
  have cov1: "covered_issues (w_db shelf_world) 1 = [(1, 1), (2, 2)]" by code_simp
  have total: "count_issues (w_db shelf_world) 1 = 5" by code_simp
  have "generated_name shelf_world 1 (count_issues (w_db shelf_world) 1)
          (covered_issues (w_db shelf_world) 3)
        = generate_issue_name shelf_world 1 (snd (hd (covered_issues (w_db shelf_world) 3)))"
    using by_cov [of 3] cov3 by blast
  also have "\<dots> = Inr ''Batman (1940) Volume 1 Issue 3''" by code_simp
  finally have single: "generated_name shelf_world 1 (count_issues (w_db shelf_world) 1)
          (covered_issues (w_db shelf_world) 3) = Inr ''Batman (1940) Volume 1 Issue 3''" .
  have "generated_name shelf_world 1 (count_issues (w_db shelf_world) 1)
          (covered_issues (w_db shelf_world) 2) = generate_tpb_name shelf_world 1"
    using by_cov [of 2] cov2 by blast
  also have "\<dots> = Inr ''Batman (1940) Volume 1 TPB''" by code_simp
  finally have tpb: "generated_name shelf_world 1 (count_issues (w_db shelf_world) 1)
          (covered_issues (w_db shelf_world) 2) = Inr ''Batman (1940) Volume 1 TPB''" .
  have "1 < length (covered_issues (w_db shelf_world) 1)
      \<and> length (covered_issues (w_db shelf_world) 1) < count_issues (w_db shelf_world) 1"
    unfolding cov1 total by simp
  with by_cov [of 1]
  have "generated_name shelf_world 1 (count_issues (w_db shelf_world) 1)
          (covered_issues (w_db shelf_world) 1)
        = generate_issue_range_name shelf_world 1
            (Min (fst ` set (covered_issues (w_db shelf_world) 1)))
            (Max (fst ` set (covered_issues (w_db shelf_world) 1)))"
    by blast
  also have "\<dots> = generate_issue_range_name shelf_world 1 1 2"
    unfolding cov1 by simp
  also have "\<dots> = Inr ''Batman (1940) Volume 1 Issue 1-2''" by code_simp
  finally have range: "generated_name shelf_world 1 (count_issues (w_db shelf_world) 1)
          (covered_issues (w_db shelf_world) 1) = Inr ''Batman (1940) Volume 1 Issue 1-2''" .
  have field: "(case issue_range_formatting_data shelf_db 1 1 2 of
         Inl e \<Rightarrow> None | Inr formatting_data \<Rightarrow> formatting_data ''issue_number'')
       = Some (PStr ''1-2'')"
    by code_simp
  from cov3 single cov2 tpb cov1 total range field show ?thesis by (intro conjI) simp_all
qed

section \<open>Properties of the applier\<close>

lemma rename_loop_stops:
  assumes "k < length renames"
    and "length fss = Suc k"
    and "fss ! 0 = w_fs w"
    and "\<forall>j<k. rename_file (fss ! j) (before (renames ! j)) (after (renames ! j)) = Inr (fss ! Suc j)"
    and "rename_file (fss ! k) (before (renames ! k)) (after (renames ! k)) = Inl e"
  shows "rename_loop rename_file w renames =
           (Some e, w\<lparr>w_db := foldl (\<lambda>d r. update_filepath d (after r) (before r)) (w_db w)
                                (take k renames),
                      w_fs := fss ! k\<rparr>)"
  using assms
proof (induction renames arbitrary: k fss w)
  case Nil
  then show ?case by simp
next
  case (Cons r renames)
  show ?case
  proof (cases k)
    case 0
    with Cons.prems show ?thesis by simp
  next
    case (Suc k')
    from Cons.prems(2) Suc obtain fs0 fss' where fss: "fss = fs0 # fss'" "length fss' = Suc k'"
      by (cases fss) auto
    from Cons.prems(4) Suc have first: "rename_file (fss ! 0) (before r) (after r) = Inr (fss ! 1)"
      by (metis One_nat_def nth_Cons_0 zero_less_Suc)
    let ?w' = "w\<lparr>w_fs := fss ! 1, w_db := update_filepath (w_db w) (after r) (before r)\<rparr>"
    have "rename_loop rename_file ?w' renames =
           (Some e, ?w'\<lparr>w_db := foldl (\<lambda>d r. update_filepath d (after r) (before r)) (w_db ?w')
                                (take k' renames),
                      w_fs := fss' ! k'\<rparr>)"
    proof (rule Cons.IH)
      show "k' < length renames" using Cons.prems(1) Suc by simp
      show "length fss' = Suc k'" by (rule fss(2))
      show "fss' ! 0 = w_fs ?w'" using fss by simp
      show "\<forall>j<k'. rename_file (fss' ! j) (before (renames ! j)) (after (renames ! j))
               = Inr (fss' ! Suc j)"
      proof (intro allI impI)
        fix j assume "j < k'"
        then have "Suc j < k" using Suc by simp
        with Cons.prems(4) have "rename_file (fss ! Suc j) (before ((r # renames) ! Suc j))
            (after ((r # renames) ! Suc j)) = Inr (fss ! Suc (Suc j))" by blast
        then show "rename_file (fss' ! j) (before (renames ! j)) (after (renames ! j))
               = Inr (fss' ! Suc j)" using fss by simp
      qed
      show "rename_file (fss' ! k') (before (renames ! k')) (after (renames ! k')) = Inl e"
        using Cons.prems(5) Suc fss by simp
    qed
    with first Cons.prems(3) Suc fss show ?thesis by simp
  qed
qed

lemma files_update_volume_folder [simp]: "files (update_volume_folder d folder v) = files d"
  by (simp add: update_volume_folder_def)

lemma update_filepath_keeps:
  "f \<in> set (files d) \<Longrightarrow> filepath f \<noteq> old \<Longrightarrow> f \<in> set (files (update_filepath d new old))"
  by (auto simp: update_filepath_def)

lemma foldl_update_filepath_keeps:
  "f \<in> set (files d) \<Longrightarrow> filepath f \<notin> before ` set rs
     \<Longrightarrow> f \<in> set (files (foldl (\<lambda>d r. update_filepath d (after r) (before r)) d rs))"
  by (induction rs arbitrary: d) (auto intro: update_filepath_keeps)

text \<open>
  C8. Let the move primitive succeed on the entries before \<open>k\<close>, each on the file system
  the one before left, and fail on entry \<open>k\<close>. Then \<^verbatim>\<open>mass_rename\<close> ends with that failure
  in the world where exactly the entries before \<open>k\<close> have been moved and had their
  \<^verbatim>\<open>UPDATE\<close> run, in plan order, after the volume folder update of the whole-volume
  mode: no move and no update of entry \<open>k\<close> or a later one has happened, and every file
  row whose path is not the before path of an entry before \<open>k\<close> is as it was.
\<close>

theorem mass_rename_stops_at_failed_move:
  assumes "preview_mass_rename w volume_id issue_id = Inr renames"
    and "k < length renames"
    and "length fss = Suc k"
    and "fss ! 0 = w_fs w"
    and "\<forall>j<k. rename_file (fss ! j) (before (renames ! j)) (after (renames ! j)) = Inr (fss ! Suc j)"
    and "rename_file (fss ! k) (before (renames ! k)) (after (renames ! k)) = Inl e"
  shows "mass_rename rename_file w volume_id issue_id =
           (Some e,
            \<lparr>w_db = foldl (\<lambda>d r. update_filepath d (after r) (before r))
                      (if \<not> id_truthy issue_id \<and> renames \<noteq> []
                       then update_volume_folder (w_db w) (dirname (after (hd renames))) volume_id
                       else w_db w)
                      (take k renames),
             w_settings = w_settings w,
             w_fs = fss ! k\<rparr>)
         \<and> (\<forall>f \<in> set (files (w_db w)). filepath f \<notin> before ` set (take k renames)
               \<longrightarrow> f \<in> set (files (w_db (snd (mass_rename rename_file w volume_id issue_id)))))"
proof -
  let ?d0 = "if \<not> id_truthy issue_id \<and> renames \<noteq> []
             then update_volume_folder (w_db w) (dirname (after (hd renames))) volume_id
             else w_db w"
  let ?w0 = "if \<not> id_truthy issue_id \<and> renames \<noteq> []
             then w\<lparr>w_db := update_volume_folder (w_db w) (dirname (after (hd renames))) volume_id\<rparr>
             else w"
  have w0: "w_fs ?w0 = w_fs w" "w_db ?w0 = ?d0" "w_settings ?w0 = w_settings w" by simp_all
  have "mass_rename rename_file w volume_id issue_id = rename_loop rename_file ?w0 renames"
    using assms(1) by (simp add: mass_rename_def)
  also have "\<dots> = (Some e, ?w0\<lparr>w_db := foldl (\<lambda>d r. update_filepath d (after r) (before r)) (w_db ?w0)
                                (take k renames),
                      w_fs := fss ! k\<rparr>)"
    using assms(2,3) _ assms(5,6)
  proof (rule rename_loop_stops)
    show "fss ! 0 = w_fs ?w0" using assms(4) w0 by simp
  qed
  also have "?w0\<lparr>w_db := foldl (\<lambda>d r. update_filepath d (after r) (before r)) (w_db ?w0)
                                (take k renames), w_fs := fss ! k\<rparr>
      = \<lparr>w_db = foldl (\<lambda>d r. update_filepath d (after r) (before r)) ?d0 (take k renames),
         w_settings = w_settings w, w_fs = fss ! k\<rparr>"
    by simp
  finally have result: "mass_rename rename_file w volume_id issue_id =
      (Some e, \<lparr>w_db = foldl (\<lambda>d r. update_filepath d (after r) (before r)) ?d0 (take k renames),
         w_settings = w_settings w, w_fs = fss ! k\<rparr>)" .
  have "f \<in> set (files (w_db (snd (mass_rename rename_file w volume_id issue_id))))"
    if "f \<in> set (files (w_db w))" "filepath f \<notin> before ` set (take k renames)" for f
  proof -
    from that(1) have "f \<in> set (files ?d0)" by simp
    from foldl_update_filepath_keeps [OF this that(2)] show ?thesis
      unfolding result by simp
  qed
  with result show ?thesis by blast
qed

text \<open>
  Three planned entries and a move primitive that fails on the second: the first file
  is moved and its row updated, the second and third are where they were.
\<close>

theorem mass_rename_stops_at_failed_move_witness:
  "preview_mass_rename three_files_world 1 None =
     Inr [\<lparr>before = ''/i/a.z'', after = ''/r/S/1.z''\<rparr>, \<lparr>before = ''/i/b.z'', after = ''/r/S/2.z''\<rparr>,
          \<lparr>before = ''/i/c.z'', after = ''/r/S/3.z''\<rparr>]
   \<and> fst (mass_rename (refusing_move ''/r/S/2.z'') three_files_world 1 None) = Some MoveFailure
   \<and> files (w_db (snd (mass_rename (refusing_move ''/r/S/2.z'') three_files_world 1 None))) =
       [\<lparr>file_id = 1, filepath = ''/r/S/1.z''\<rparr>, \<lparr>file_id = 2, filepath = ''/i/b.z''\<rparr>,
        \<lparr>file_id = 3, filepath = ''/i/c.z''\<rparr>]
   \<and> isfile (w_fs (snd (mass_rename (refusing_move ''/r/S/2.z'') three_files_world 1 None))) ''/r/S/1.z''
   \<and> \<not> isfile (w_fs (snd (mass_rename (refusing_move ''/r/S/2.z'') three_files_world 1 None))) ''/i/a.z''
   \<and> isfile (w_fs (snd (mass_rename (refusing_move ''/r/S/2.z'') three_files_world 1 None))) ''/i/b.z''
   \<and> isfile (w_fs (snd (mass_rename (refusing_move ''/r/S/2.z'') three_files_world 1 None))) ''/i/c.z''
   \<and> \<not> isfile (w_fs (snd (mass_rename (refusing_move ''/r/S/2.z'') three_files_world 1 None))) ''/r/S/3.z''"
proof -
  let ?plan = "[\<lparr>before = ''/i/a.z'', after = ''/r/S/1.z''\<rparr>, \<lparr>before = ''/i/b.z'', after = ''/r/S/2.z''\<rparr>,
          \<lparr>before = ''/i/c.z'', after = ''/r/S/3.z''\<rparr>]"
  let ?fs0 = "w_fs three_files_world"
  let ?fs1 = "moved ?fs0 ''/i/a.z'' ''/r/S/1.z''"
  let ?mv = "refusing_move ''/r/S/2.z''"
  have plan: "preview_mass_rename three_files_world 1 None = Inr ?plan"
    by code_simp
  have k: "(1::nat) < length ?plan" by simp
  have len: "length [?fs0, ?fs1] = Suc 1" by simp
  have start: "[?fs0, ?fs1] ! 0 = w_fs three_files_world" by simp
  have there: "isfile ?fs0 ''/i/a.z''"
    by (simp add: three_files_world_def fs_of_def)
  have ok: "\<forall>j<1. ?mv ([?fs0, ?fs1] ! j) (before (?plan ! j)) (after (?plan ! j))
                = Inr ([?fs0, ?fs1] ! Suc j)"
    using there by (simp add: refusing_move_def move_file_def)
  have fail: "?mv ([?fs0, ?fs1] ! 1) (before (?plan ! 1)) (after (?plan ! 1)) = Inl MoveFailure"
    by (simp add: refusing_move_def)
  from mass_rename_stops_at_failed_move [OF plan k len start ok fail]
  have result: "mass_rename ?mv three_files_world 1 None =
      (Some MoveFailure,
       \<lparr>w_db = foldl (\<lambda>d r. update_filepath d (after r) (before r))
                 (if \<not> id_truthy None \<and> ?plan \<noteq> []
                  then update_volume_folder (w_db three_files_world) (dirname (after (hd ?plan))) 1
                  else w_db three_files_world)
                 (take 1 ?plan),
        w_settings = w_settings three_files_world,
        w_fs = [?fs0, ?fs1] ! 1\<rparr>)"
    by blast
  have rows: "files (w_db (snd (mass_rename ?mv three_files_world 1 None))) =
       [\<lparr>file_id = 1, filepath = ''/r/S/1.z''\<rparr>, \<lparr>file_id = 2, filepath = ''/i/b.z''\<rparr>,
        \<lparr>file_id = 3, filepath = ''/i/c.z''\<rparr>]"
    unfolding result
    by (simp add: update_filepath_def three_files_world_def tiny_db_def)
  have disk: "isfile (w_fs (snd (mass_rename ?mv three_files_world 1 None))) ''/r/S/1.z''"
    "\<not> isfile (w_fs (snd (mass_rename ?mv three_files_world 1 None))) ''/i/a.z''"
    "isfile (w_fs (snd (mass_rename ?mv three_files_world 1 None))) ''/i/b.z''"
    "isfile (w_fs (snd (mass_rename ?mv three_files_world 1 None))) ''/i/c.z''"
    "\<not> isfile (w_fs (snd (mass_rename ?mv three_files_world 1 None))) ''/r/S/3.z''"
    unfolding result
    by (simp_all add: moved_def three_files_world_def fs_of_def)
  from result have err: "fst (mass_rename ?mv three_files_world 1 None) = Some MoveFailure"
    by simp
  from plan err rows disk show ?thesis by (intro conjI)
qed

section \<open>The issue id 0\<close>

text \<open>
  C10. The operations disagree on issue id 0. \<^verbatim>\<open>preview_mass_rename\<close> tests
  \<^verbatim>\<open>issue_id is None\<close>: for id 0 it takes the files of issue 0 and the folder of the first
  of them, the single-issue mode. \<^verbatim>\<open>_get_formatting_data\<close> tests \<^verbatim>\<open>if issue_id\<close>: for id
  0 it builds the volume-only context. \<^verbatim>\<open>mass_rename\<close> tests \<^verbatim>\<open>not issue_id\<close>: for id 0
  and a non-empty plan it first sets the volume's folder to the directory of the first
  after path, as in the whole-volume mode, which it does for no other issue id.
\<close>

theorem issue_id_zero_is_both_modes:
  "rename_scope w volume_id (Some 0) =
     (case issue_file_infos (w_db w) 0 of
        [] \<Rightarrow> Inl IndexError
      | f # file_infos \<Rightarrow> Inr (f # file_infos, dirname (filepath f)))
   \<and> get_formatting_data d volume_id (Some 0) = get_formatting_data d volume_id None
   \<and> (preview_mass_rename w volume_id (Some 0) = Inr renames \<and> renames \<noteq> []
      \<longrightarrow> mass_rename rename_file w volume_id (Some 0) =
            rename_loop rename_file
              (w\<lparr>w_db := update_volume_folder (w_db w) (dirname (after (hd renames))) volume_id\<rparr>)
              renames)
   \<and> (issue_id \<noteq> 0 \<and> preview_mass_rename w volume_id (Some issue_id) = Inr renames
      \<longrightarrow> mass_rename rename_file w volume_id (Some issue_id) = rename_loop rename_file w renames)"
proof (intro conjI impI)
  show "rename_scope w volume_id (Some 0) =
     (case issue_file_infos (w_db w) 0 of
        [] \<Rightarrow> Inl IndexError
      | f # file_infos \<Rightarrow> Inr (f # file_infos, dirname (filepath f)))"
    by (simp add: rename_scope_def)
  show "get_formatting_data d volume_id (Some 0) = get_formatting_data d volume_id None"
    by (simp add: get_formatting_data_def Let_def split: option.splits sum.splits)
next
  assume "preview_mass_rename w volume_id (Some 0) = Inr renames \<and> renames \<noteq> []"
  then show "mass_rename rename_file w volume_id (Some 0) =
            rename_loop rename_file
              (w\<lparr>w_db := update_volume_folder (w_db w) (dirname (after (hd renames))) volume_id\<rparr>)
              renames"
    by (simp add: mass_rename_def)
next
  assume "issue_id \<noteq> 0 \<and> preview_mass_rename w volume_id (Some issue_id) = Inr renames"
  then show "mass_rename rename_file w volume_id (Some issue_id) = rename_loop rename_file w renames"
    by (simp add: mass_rename_def)
qed

text \<open>
  In the example the plan for issue 0 stays in the file's folder \<^verbatim>\<open>/d\<close>, where the
  whole-volume plan goes to \<^verbatim>\<open>/r/S\<close>; applying it sets the volume's folder to \<^verbatim>\<open>/d\<close>,
  and applying the same plan for issue 1 leaves the folder alone. The single-issue
  name of issue 0 has no \<^verbatim>\<open>issue_number\<close> to render.
\<close>

theorem issue_id_zero_is_both_modes_witness:
  "preview_mass_rename zero_issue_world 1 (Some 0) = Inr [\<lparr>before = ''/d/x.z'', after = ''/d/1-2.z''\<rparr>]
   \<and> preview_mass_rename zero_issue_world 1 None = Inr [\<lparr>before = ''/d/x.z'', after = ''/r/S/1-2.z''\<rparr>]
   \<and> map vol_folder (volumes (w_db (snd (mass_rename move_file zero_issue_world 1 (Some 0)))))
       = [PStr ''/d'']
   \<and> preview_mass_rename zero_issue_world 1 (Some 1) = Inr [\<lparr>before = ''/d/x.z'', after = ''/d/1-2.z''\<rparr>]
   \<and> map vol_folder (volumes (w_db (snd (mass_rename move_file zero_issue_world 1 (Some 1)))))
       = [PNone]
   \<and> generate_issue_name zero_issue_world 1 0 = Inl (KeyError ''issue_number'')
   \<and> generate_issue_name zero_issue_world 1 1 = Inr ''1''"
proof -
  let ?plan = "[\<lparr>before = ''/d/x.z'', after = ''/d/1-2.z''\<rparr>]"
  have single: "preview_mass_rename zero_issue_world 1 (Some 0) = Inr ?plan"
    by code_simp
  have whole: "preview_mass_rename zero_issue_world 1 None
      = Inr [\<lparr>before = ''/d/x.z'', after = ''/r/S/1-2.z''\<rparr>]"
    by code_simp
  have other: "preview_mass_rename zero_issue_world 1 (Some 1) = Inr ?plan"
    by code_simp
  from issue_id_zero_is_both_modes [of zero_issue_world 1 _ ?plan move_file] single
  have "mass_rename move_file zero_issue_world 1 (Some 0) =
      rename_loop move_file
        (zero_issue_world\<lparr>w_db := update_volume_folder (w_db zero_issue_world)
                                      (dirname (after (hd ?plan))) 1\<rparr>) ?plan"
    by blast
  moreover have "map vol_folder (volumes (w_db (snd (rename_loop move_file
        (zero_issue_world\<lparr>w_db := update_volume_folder (w_db zero_issue_world)
                                      (dirname (after (hd ?plan))) 1\<rparr>) ?plan)))) = [PStr ''/d'']"
    by code_simp
  ultimately have zero: "map vol_folder
      (volumes (w_db (snd (mass_rename move_file zero_issue_world 1 (Some 0))))) = [PStr ''/d'']"
    by simp
  from issue_id_zero_is_both_modes [of zero_issue_world 1 _ ?plan move_file 1] other
  have "mass_rename move_file zero_issue_world 1 (Some 1) =
      rename_loop move_file zero_issue_world ?plan"
    by simp
  moreover have "map vol_folder (volumes (w_db (snd (rename_loop move_file zero_issue_world ?plan))))
      = [PNone]"
    by code_simp
  ultimately have one: "map vol_folder
      (volumes (w_db (snd (mass_rename move_file zero_issue_world 1 (Some 1))))) = [PNone]"
    by simp
  have key: "generate_issue_name zero_issue_world 1 0 = Inl (KeyError ''issue_number'')"
    by code_simp
  have name: "generate_issue_name zero_issue_world 1 1 = Inr ''1''"
    by code_simp
  from single whole zero other one key name show ?thesis by (intro conjI)
qed

section \<open>Planning again after applying\<close>

subsection \<open>Paths\<close>




lemma sep_neq_extsep [simp]: "sep \<noteq> extsep" "extsep \<noteq> sep"
  by (simp_all add: sep_def extsep_def)










subsection \<open>Numbered names\<close>


















subsection \<open>The database after the updates\<close>


















subsection \<open>The scope and the plan in the state the applier left\<close>












end
